theory Spec2Isabelle
  imports Main
begin

section \<open>Data model (types.ts)\<close>

text \<open>
  The TypeScript declarations, field by field. Field names carry a prefix where two
  interfaces use the same name (\<open>id\<close>, \<open>prompt\<close>, \<open>timestamp\<close>, \<open>generatedImage\<close>).
  A JavaScript string is a list of code units; \<open>string | null\<close> is \<open>string option\<close>,
  the optional field \<open>iterations?\<close> is a \<open>list option\<close>. \<open>Date.now()\<close> values are
  integers.
\<close>

datatype AppState = IDLE | LOADING | SUCCESS | ERROR

record DesignIteration =
  iter_id :: string
  iter_prompt :: string
  iter_image :: string
  iter_timestamp :: int

record SavedDesign =
  design_id :: string
  design_userId :: "string option"
  design_timestamp :: int
  design_originalImage :: string
  design_generatedImage :: string
  design_prompt :: string
  design_iterations :: "DesignIteration list option"

text \<open>The two properties of a browser \<open>File\<close> that \<open>processFile\<close> reads.\<close>

record File =
  file_type :: string
  file_size :: nat

text \<open>
  The state hooks of the \<open>App\<close> component that the handlers below read or write.
  \<open>prompt\<close> is the \<open>value\<close> of the \<open>useUndoRedo\<close> hook.
\<close>

record App =
  appState :: AppState
  selectedFile :: "File option"
  imagePreview :: "string option"
  originalImageRef :: "string option"
  generatedImage :: "string option"
  pastIterations :: "DesignIteration list"
  prompt :: string
  errorMsg :: "string option"
  lastAutoSave :: "int option"
  savedDesigns :: "SavedDesign list"
  isSaving :: bool
  showSaveDialog :: bool

section \<open>JavaScript string primitives\<close>

text \<open>Truthiness of a \<open>string | null\<close>: \<open>null\<close> and the empty string are falsy.\<close>

definition truthy :: "string option \<Rightarrow> bool" where
  "truthy x = (case x of None \<Rightarrow> False | Some str \<Rightarrow> str \<noteq> [])"

text \<open>\<open>s.startsWith(p)\<close>.\<close>

fun startsWith :: "string \<Rightarrow> string \<Rightarrow> bool" where
  "startsWith s [] = True"
| "startsWith [] (p # ps) = False"
| "startsWith (c # cs) (p # ps) = (c = p \<and> startsWith cs ps)"

text \<open>\<open>s.includes(p)\<close>: \<open>p\<close> occurs at some position of \<open>s\<close>.\<close>

fun includes_str :: "string \<Rightarrow> string \<Rightarrow> bool" where
  "includes_str [] p = (p = [])"
| "includes_str (c # cs) p = (startsWith (c # cs) p \<or> includes_str cs p)"

text \<open>
  \<open>s.trim()\<close>: white space and line terminators are removed at both ends. Of the
  characters ECMAScript strips, those below 256 are tab, line feed, vertical tab, form
  feed, carriage return, space and the no-break space.
\<close>

definition isWhiteSpace :: "char \<Rightarrow> bool" where
  "isWhiteSpace c = (of_char c \<in> {9, 10, 11, 12, 13, 32, 160 :: nat})"

definition trim :: "string \<Rightarrow> string" where
  "trim s = rev (dropWhile isWhiteSpace (rev (dropWhile isWhiteSpace s)))"

section \<open>The handlers of the App component\<close>

text \<open>
  Each handler is a function from the component state to the component state. What a
  handler takes from the environment is an argument: the identifier returned by
  \<open>crypto.randomUUID()\<close>, the clock value of \<open>Date.now()\<close>, the outcome of the
  generation call. Scrolling, logging and the draft slot in IndexedDB (\<open>saveDraft\<close>,
  \<open>clearDraft\<close>, both best effort) are outside the component state and are left out.
\<close>

text \<open>
  Modelled from the spec: the hook \<open>useUndoRedo\<close> (hooks/useUndoRedo) is missing from
  the sources. Its \<open>setAndSave(v)\<close> "sets live and baseline to \<open>v\<close> immediately"; the
  live value is what the component reads as \<open>prompt\<close>. The undo and redo stacks are not
  part of the state modelled here.
\<close>

definition setPromptAndSave :: "string \<Rightarrow> App \<Rightarrow> App" where
  "setPromptAndSave v s = s\<lparr>prompt := v\<rparr>"

text \<open>
  \<open>processFile\<close> has a synchronous part, which validates the file, and the
  \<open>reader.onload\<close> callback, which receives the data URL of the file.
\<close>

definition processFile :: "File \<Rightarrow> App \<Rightarrow> App" where
  "processFile file s =
    (if \<not> startsWith (file_type file) ''image/'' then
       s\<lparr>errorMsg := Some ''Please upload a valid image file (JPG, PNG).''\<rparr>
     else if file_size file > 10 * 1024 * 1024 then
       s\<lparr>errorMsg := Some ''Image size should be less than 10MB.''\<rparr>
     else s\<lparr>selectedFile := Some file, errorMsg := None, generatedImage := None\<rparr>)"

definition processFile_onload :: "string \<Rightarrow> App \<Rightarrow> App" where
  "processFile_onload result s =
    s\<lparr>imagePreview := Some result, originalImageRef := Some result, pastIterations := []\<rparr>"

text \<open>
  \<open>handleGenerate\<close> up to its \<open>await\<close>: \<open>None\<close> is the early \<open>return\<close> of the first
  line (no state is written, no generation call is made), \<open>Some s'\<close> is the state at
  the moment the generation call is issued.
\<close>

definition handleGenerate_start :: "App \<Rightarrow> App option" where
  "handleGenerate_start s =
    (if (selectedFile s = None \<and> \<not> truthy (imagePreview s)) \<or> trim (prompt s) = []
     then None
     else Some (s\<lparr>appState := LOADING, errorMsg := None\<rparr>))"

text \<open>
  \<open>handleGenerate\<close> after the \<open>await\<close>: the generation call returned an image
  (\<open>Inr\<close>) or threw an error with the given \<open>message\<close> (\<open>Inl\<close>).
\<close>

definition handleGenerate_settle :: "string + string \<Rightarrow> int \<Rightarrow> App \<Rightarrow> App" where
  "handleGenerate_settle outcome now s =
    (case outcome of
       Inr resultImage \<Rightarrow>
         s\<lparr>generatedImage := Some resultImage, appState := SUCCESS, lastAutoSave := Some now\<rparr>
     | Inl message \<Rightarrow>
         s\<lparr>errorMsg := Some (if message \<noteq> [] then message
                              else ''An unexpected error occurred while generating the vision.''),
           appState := ERROR\<rparr>)"

text \<open>
  What the component renders (the conditional of the \<open>main\<close> element): the loading
  view while \<open>LOADING\<close>, the result comparison when \<open>SUCCESS\<close> with both images, and
  otherwise the form that holds the "Generate Vision" button. The button carries
  \<open>disabled\<close> under the same condition that makes \<open>handleGenerate\<close> return early.
\<close>

definition rendersGenerateButton :: "App \<Rightarrow> bool" where
  "rendersGenerateButton s =
    (if appState s = LOADING then False
     else if appState s = SUCCESS \<and> truthy (generatedImage s) \<and> truthy (imagePreview s) then False
     else True)"

definition generateButtonDisabled :: "App \<Rightarrow> bool" where
  "generateButtonDisabled s =
    ((selectedFile s = None \<and> \<not> truthy (imagePreview s)) \<or> trim (prompt s) = [])"

definition handleReset :: "App \<Rightarrow> App" where
  "handleReset s =
    setPromptAndSave []
      (s\<lparr>appState := IDLE, selectedFile := None, imagePreview := None,
         originalImageRef := None, generatedImage := None, pastIterations := []\<rparr>)
      \<lparr>errorMsg := None, lastAutoSave := None\<rparr>"

definition handleRetry :: "App \<Rightarrow> App" where
  "handleRetry s = s\<lparr>generatedImage := None, appState := IDLE\<rparr>"

definition handleRefine :: "string \<Rightarrow> int \<Rightarrow> App \<Rightarrow> App" where
  "handleRefine uuid now s =
    (case generatedImage s of
       None \<Rightarrow> s
     | Some result \<Rightarrow>
         if result = [] then s
         else
           let iteration = \<lparr>iter_id = uuid, iter_prompt = prompt s,
                             iter_image = result, iter_timestamp = now\<rparr>
           in setPromptAndSave []
                (s\<lparr>pastIterations := pastIterations s @ [iteration],
                   imagePreview := Some result,
                   generatedImage := None,
                   selectedFile := None\<rparr>)
                \<lparr>appState := IDLE\<rparr>)"

text \<open>
  The part of \<open>confirmSaveDesign\<close> that builds \<open>newDesign\<close> from the session
  (promotion of the session to a lineage). \<open>None\<close> is the early \<open>return\<close> when there
  is no result, no working image or no signed-in user. The two identifiers and the two
  clock values are those of the calls in source order.
\<close>

definition confirmSaveDesign_newDesign ::
  "string option \<Rightarrow> string \<Rightarrow> int \<Rightarrow> string \<Rightarrow> int \<Rightarrow> App \<Rightarrow> SavedDesign option" where
  "confirmSaveDesign_newDesign user iterUuid iterNow designUuid designNow s =
    (case (generatedImage s, imagePreview s, user) of
       (Some result, Some preview, Some userId) \<Rightarrow>
         if result = [] \<or> preview = [] then None
         else
           let currentIteration = \<lparr>iter_id = iterUuid, iter_prompt = prompt s,
                                    iter_image = result, iter_timestamp = iterNow\<rparr>;
               allIterations = pastIterations s @ [currentIteration]
           in Some \<lparr>design_id = designUuid,
                    design_userId = Some userId,
                    design_timestamp = designNow,
                    design_originalImage =
                      (case originalImageRef s of
                         None \<Rightarrow> preview
                       | Some root \<Rightarrow> if root \<noteq> [] then root else preview),
                    design_generatedImage = result,
                    design_prompt = prompt s,
                    design_iterations = Some allIterations\<rparr>
     | _ \<Rightarrow> None)"

definition handleLoadDesign :: "SavedDesign \<Rightarrow> App \<Rightarrow> App" where
  "handleLoadDesign design s =
    (let s1 = s\<lparr>originalImageRef := Some (design_originalImage design)\<rparr>;
         stored = (case design_iterations design of None \<Rightarrow> [] | Some its \<Rightarrow> its);
         iterations =
           (if length stored = 0 \<and> design_generatedImage design \<noteq> [] then
              [\<lparr>iter_id = ''legacy'', iter_prompt = design_prompt design,
                iter_image = design_generatedImage design,
                iter_timestamp = design_timestamp design\<rparr>]
            else stored);
         s2 =
           (if length iterations > 0 then
              let lastIteration = last iterations;
                  previousIterations = butlast iterations;
                  inputImage =
                    (if length previousIterations > 0
                     then iter_image (last previousIterations)
                     else design_originalImage design)
              in setPromptAndSave (iter_prompt lastIteration)
                   (s1\<lparr>pastIterations := previousIterations,
                       imagePreview := Some inputImage,
                       generatedImage := Some (iter_image lastIteration)\<rparr>)
            else
              setPromptAndSave (design_prompt design)
                (s1\<lparr>imagePreview := Some (design_originalImage design),
                    generatedImage := Some (design_generatedImage design)\<rparr>))
     in s2\<lparr>selectedFile := None, appState := SUCCESS\<rparr>)"

definition handleEditDesign :: "SavedDesign \<Rightarrow> App \<Rightarrow> App" where
  "handleEditDesign design s =
    (let s1 = s\<lparr>originalImageRef := Some (design_originalImage design)\<rparr>;
         stored = (case design_iterations design of None \<Rightarrow> [] | Some its \<Rightarrow> its);
         s2 =
           (if length stored > 0 then
              let lastIteration = last stored;
                  previousIterations = butlast stored;
                  inputImage =
                    (if length previousIterations > 0
                     then iter_image (last previousIterations)
                     else design_originalImage design)
              in setPromptAndSave (iter_prompt lastIteration)
                   (s1\<lparr>pastIterations := previousIterations,
                       imagePreview := Some inputImage\<rparr>)
            else
              (setPromptAndSave (design_prompt design)
                 (s1\<lparr>imagePreview := Some (design_originalImage design)\<rparr>))
                \<lparr>pastIterations := []\<rparr>)
     in s2\<lparr>generatedImage := None, selectedFile := None, appState := IDLE\<rparr>)"

text \<open>
  Invariant 2 of the data model: the working image is the root when there is no
  completed step, and the image of the last completed step otherwise.
\<close>

definition workingImageInvariant :: "App \<Rightarrow> bool" where
  "workingImageInvariant s =
    (if pastIterations s = [] then imagePreview s = originalImageRef s
     else imagePreview s = Some (iter_image (last (pastIterations s))))"

section \<open>The storage service (services/storageService)\<close>

text \<open>
  Firebase Storage and the Firestore collection \<open>designs\<close> are an explicit state:
  the stored objects by path, the metadata records by document id (in storage order),
  and the log of the calls issued to the two services. How the services answer a call
  (which calls throw, which download URL a path receives) is a parameter of every
  operation.
\<close>

datatype call =
    UploadString string string
  | GetDownloadURL string
  | SetDoc string SavedDesign
  | GetDoc string
  | DeleteObject string
  | DeleteDoc string
  | GetDocs string

record Cloud =
  objects :: "string \<rightharpoonup> string"
  designs :: "(string \<times> SavedDesign) list"
  calls :: "call list"

record Services =
  uploadString_fails :: "string \<Rightarrow> bool"
  getDownloadURL_fails :: "string \<Rightarrow> bool"
  downloadURL :: "string \<Rightarrow> string"
  setDoc_fails :: bool
  getDoc_fails :: bool
  deleteObject_error :: "string \<Rightarrow> string option"
  deleteDoc_fails :: bool
  getDocs_fails :: bool

definition issue :: "call \<Rightarrow> Cloud \<Rightarrow> Cloud" where
  "issue c w = w\<lparr>calls := calls w @ [c]\<rparr>"

text \<open>The storage paths, as the template strings build them.\<close>

definition originalPath :: "string \<Rightarrow> string \<Rightarrow> string" where
  "originalPath userId designId = ''users/'' @ userId @ ''/'' @ designId @ ''/original.png''"

definition generatedPath :: "string \<Rightarrow> string \<Rightarrow> string" where
  "generatedPath userId designId = ''users/'' @ userId @ ''/'' @ designId @ ''/generated.png''"

definition iterationPath :: "string \<Rightarrow> string \<Rightarrow> string \<Rightarrow> string" where
  "iterationPath userId designId iterId =
    ''users/'' @ userId @ ''/'' @ designId @ ''/iterations/'' @ iterId @ ''.png''"

text \<open>
  \<open>uploadImageToStorage\<close>: an empty string or a string that starts with \<open>http\<close> is
  returned as it is, with no call. Otherwise \<open>uploadString\<close> and then
  \<open>getDownloadURL\<close> are called; when either throws, the function throws
  (\<open>Inl\<close> with the message of the new \<open>Error\<close>).
\<close>

definition uploadImageToStorage ::
  "Services \<Rightarrow> string \<Rightarrow> string \<Rightarrow> Cloud \<Rightarrow> (string + string) \<times> Cloud" where
  "uploadImageToStorage env path imageString w =
    (if imageString = [] \<or> startsWith imageString ''http'' then (Inr imageString, w)
     else
       let w1 = issue (UploadString path imageString) w in
       if uploadString_fails env path
       then (Inl ''Failed to upload image to cloud storage'', w1)
       else
         let w2 = issue (GetDownloadURL path) (w1\<lparr>objects := (objects w1)(path \<mapsto> imageString)\<rparr>) in
         if getDownloadURL_fails env path
         then (Inl ''Failed to upload image to cloud storage'', w2)
         else (Inr (downloadURL env path), w2))"

text \<open>
  \<open>getSavedDesigns\<close>: no call for a missing or empty user id; the records of the user
  sorted newest first (\<open>Array.prototype.sort\<close> is stable); the empty list when the
  query throws.
\<close>

definition getSavedDesigns :: "Services \<Rightarrow> string option \<Rightarrow> Cloud \<Rightarrow> SavedDesign list \<times> Cloud" where
  "getSavedDesigns env userId w =
    (case userId of
       None \<Rightarrow> ([], w)
     | Some uid \<Rightarrow>
         if uid = [] then ([], w)
         else
           let w1 = issue (GetDocs uid) w in
           if getDocs_fails env then ([], w1)
           else
             (sort_key (\<lambda>d. - design_timestamp d)
                (filter (\<lambda>d. design_userId d = Some uid) (map snd (designs w1))),
              w1))"

text \<open>
  The iteration uploads of \<open>saveDesign\<close>. \<open>map\<close> starts every upload, in order, and
  an upload that throws does not stop the others, so every iteration is processed and
  its outcome collected. The log lists the two calls of an iteration together; the
  program may interleave the \<open>getDownloadURL\<close> calls of different iterations.
\<close>

fun uploadIterations ::
  "Services \<Rightarrow> string \<Rightarrow> string \<Rightarrow> DesignIteration list \<Rightarrow> Cloud
    \<Rightarrow> (string + DesignIteration) list \<times> Cloud" where
  "uploadIterations env userId designId [] w = ([], w)"
| "uploadIterations env userId designId (iter # rest) w =
    (case uploadImageToStorage env (iterationPath userId designId (iter_id iter)) (iter_image iter) w of
       (r, w1) \<Rightarrow>
         (case uploadIterations env userId designId rest w1 of
            (rs, w2) \<Rightarrow>
              ((case r of Inl e \<Rightarrow> Inl e | Inr iterUrl \<Rightarrow> Inr (iter\<lparr>iter_image := iterUrl\<rparr>)) # rs, w2)))"

text \<open>\<open>Promise.all\<close>: the values when every promise resolved, a rejection otherwise.\<close>

fun promiseAll :: "('e + 'a) list \<Rightarrow> 'e + 'a list" where
  "promiseAll [] = Inr []"
| "promiseAll (Inl e # rs) = Inl e"
| "promiseAll (Inr v # rs) = (case promiseAll rs of Inl e \<Rightarrow> Inl e | Inr vs \<Rightarrow> Inr (v # vs))"

definition setDoc :: "Services \<Rightarrow> string \<Rightarrow> SavedDesign \<Rightarrow> Cloud \<Rightarrow> (string + unit) \<times> Cloud" where
  "setDoc env docId record w =
    (let w1 = issue (SetDoc docId record) w in
     if setDoc_fails env then (Inl ''setDoc'', w1)
     else
       (Inr (),
        w1\<lparr>designs :=
             (if docId \<in> fst ` set (designs w1)
              then map (\<lambda>(k, v). if k = docId then (k, record) else (k, v)) (designs w1)
              else designs w1 @ [(docId, record)])\<rparr>))"

text \<open>
  \<open>saveDesign\<close>: the original, then the generated image, then the iterations, then
  the metadata record; any throw is caught and turned into \<open>false\<close>.
\<close>

definition saveDesign :: "Services \<Rightarrow> SavedDesign \<Rightarrow> string \<Rightarrow> Cloud \<Rightarrow> bool \<times> Cloud" where
  "saveDesign env design userId w =
    (case uploadImageToStorage env (originalPath userId (design_id design))
            (design_originalImage design) w of
       (Inl e, w1) \<Rightarrow> (False, w1)
     | (Inr originalUrl, w1) \<Rightarrow>
         (case uploadImageToStorage env (generatedPath userId (design_id design))
                 (design_generatedImage design) w1 of
            (Inl e, w2) \<Rightarrow> (False, w2)
          | (Inr generatedUrl, w2) \<Rightarrow>
              (case uploadIterations env userId (design_id design)
                      (case design_iterations design of None \<Rightarrow> [] | Some its \<Rightarrow> its) w2 of
                 (rs, w3) \<Rightarrow>
                   (case promiseAll rs of
                      Inl e \<Rightarrow> (False, w3)
                    | Inr processedIterations \<Rightarrow>
                        let designToSave =
                              design\<lparr>design_userId := Some userId,
                                     design_originalImage := originalUrl,
                                     design_generatedImage := generatedUrl,
                                     design_iterations := Some processedIterations\<rparr>
                        in (case setDoc env (design_id design) designToSave w3 of
                              (Inl e, w4) \<Rightarrow> (False, w4)
                            | (Inr u, w4) \<Rightarrow> (True, w4))))))"

text \<open>
  \<open>safeDelete\<close>: \<open>deleteObject\<close> with every error caught (an error other than
  \<open>storage/object-not-found\<close> is only logged to the console).
\<close>

definition safeDelete :: "Services \<Rightarrow> string \<Rightarrow> Cloud \<Rightarrow> Cloud" where
  "safeDelete env path w =
    (let w1 = issue (DeleteObject path) w in
     case deleteObject_error env path of
       Some code \<Rightarrow> w1
     | None \<Rightarrow> w1\<lparr>objects := (objects w1)(path := None)\<rparr>)"

text \<open>The clean-up calls that \<open>deleteDesign\<close> collects in \<open>deletePromises\<close>.\<close>

definition deletePaths :: "string \<Rightarrow> string \<Rightarrow> SavedDesign \<Rightarrow> string list" where
  "deletePaths userId docId design =
    (if design_originalImage design \<noteq> []
        \<and> includes_str (design_originalImage design) ''firebasestorage''
     then [originalPath userId docId] else [])
    @ (if design_generatedImage design \<noteq> []
          \<and> includes_str (design_generatedImage design) ''firebasestorage''
       then [generatedPath userId docId] else [])
    @ (case design_iterations design of
         None \<Rightarrow> []
       | Some its \<Rightarrow>
           map (\<lambda>iter. iterationPath userId docId (iter_id iter))
             (filter (\<lambda>iter. iter_image iter \<noteq> []
                              \<and> includes_str (iter_image iter) ''firebasestorage'') its))"

text \<open>
  \<open>deleteDesign\<close>: the record is fetched, its artifacts are cleaned up when it
  exists, the record is deleted and the list of the user is fetched again. A throw of
  \<open>getDoc\<close> or \<open>deleteDoc\<close> is caught by the function, which then returns \<open>[]\<close>.
\<close>

definition deleteDesign :: "Services \<Rightarrow> string \<Rightarrow> string \<Rightarrow> Cloud \<Rightarrow> SavedDesign list \<times> Cloud" where
  "deleteDesign env docId userId w =
    (let w1 = issue (GetDoc docId) w in
     if getDoc_fails env then ([], w1)
     else
       let w2 = (case map_of (designs w1) docId of
                   Some design \<Rightarrow> foldl (\<lambda>acc path. safeDelete env path acc) w1
                                    (deletePaths userId docId design)
                 | None \<Rightarrow> w1);
           w3 = issue (DeleteDoc docId) w2
       in if deleteDoc_fails env then ([], w3)
          else getSavedDesigns env (Some userId)
                 (w3\<lparr>designs := filter (\<lambda>(k, v). k \<noteq> docId) (designs w3)\<rparr>))"

text \<open>
  \<open>confirmSaveDesign\<close>: the lineage built from the session is handed to
  \<open>saveDesign\<close>; on success the gallery is reloaded, on failure the error message is
  set. The state is the one at the end of the handler; the timeout that closes the
  dialog half a second after a success is left out.
\<close>

definition confirmSaveDesign ::
  "Services \<Rightarrow> string option \<Rightarrow> string \<Rightarrow> int \<Rightarrow> string \<Rightarrow> int
    \<Rightarrow> App \<times> Cloud \<Rightarrow> App \<times> Cloud" where
  "confirmSaveDesign env user iterUuid iterNow designUuid designNow sw =
    (case sw of (s, w) \<Rightarrow>
      (case (confirmSaveDesign_newDesign user iterUuid iterNow designUuid designNow s, user) of
         (Some newDesign, Some userId) \<Rightarrow>
           (case saveDesign env newDesign userId w of
              (True, w1) \<Rightarrow>
                (case getSavedDesigns env (Some userId) w1 of
                   (updatedDesigns, w2) \<Rightarrow>
                     (s\<lparr>isSaving := True, savedDesigns := updatedDesigns, lastAutoSave := None\<rparr>, w2))
            | (False, w1) \<Rightarrow>
                (s\<lparr>isSaving := False, showSaveDialog := False,
                   errorMsg := Some ''Failed to save. Storage limit reached.''\<rparr>, w1))
       | _ \<Rightarrow> (s, w)))"

text \<open>Vocabulary of the claims about the service.\<close>

definition isInline :: "string \<Rightarrow> bool" where
  "isInline ref = (ref \<noteq> [] \<and> \<not> startsWith ref ''http'')"

definition isLocator :: "string \<Rightarrow> bool" where
  "isLocator ref = startsWith ref ''http''"

fun isUploadString :: "call \<Rightarrow> bool" where
  "isUploadString (UploadString path content) = True"
| "isUploadString c = False"

fun isSetDoc :: "call \<Rightarrow> bool" where
  "isSetDoc (SetDoc docId record) = True"
| "isSetDoc c = False"

text \<open>The artifacts of a lineage with the storage path of each.\<close>

definition artifacts :: "string \<Rightarrow> SavedDesign \<Rightarrow> (string \<times> string) list" where
  "artifacts userId design =
    (originalPath userId (design_id design), design_originalImage design)
    # (generatedPath userId (design_id design), design_generatedImage design)
    # map (\<lambda>iter. (iterationPath userId (design_id design) (iter_id iter), iter_image iter))
        (case design_iterations design of None \<Rightarrow> [] | Some its \<Rightarrow> its)"

definition uploadFails :: "Services \<Rightarrow> string \<Rightarrow> bool" where
  "uploadFails env path = (uploadString_fails env path \<or> getDownloadURL_fails env path)"

text \<open>The clean-up paths of the record stored under a document id, if there is one.\<close>

definition cleanupPaths :: "string \<Rightarrow> string \<Rightarrow> Cloud \<Rightarrow> string list" where
  "cleanupPaths userId docId w =
    (case map_of (designs w) docId of
       Some design \<Rightarrow> deletePaths userId docId design
     | None \<Rightarrow> [])"

section \<open>Sample data\<close>

abbreviation rootImage :: string where
  "rootImage \<equiv> ''data:image/png;base64,Um9vdA==''"

abbreviation firstImage :: string where
  "firstImage \<equiv> ''data:image/png;base64,Rmlyc3Q=''"

abbreviation secondImage :: string where
  "secondImage \<equiv> ''data:image/png;base64,U2Vjb25k''"

abbreviation firstIteration :: DesignIteration where
  "firstIteration \<equiv>
    \<lparr>iter_id = ''it-1'', iter_prompt = ''add a pond'', iter_image = firstImage,
     iter_timestamp = 100\<rparr>"

abbreviation secondIteration :: DesignIteration where
  "secondIteration \<equiv>
    \<lparr>iter_id = ''it-2'', iter_prompt = ''add a hedge'', iter_image = secondImage,
     iter_timestamp = 200\<rparr>"

text \<open>A session whose generation failed: the form is shown with the error message.\<close>

abbreviation failedSession :: App where
  "failedSession \<equiv>
    \<lparr>appState = ERROR, selectedFile = None, imagePreview = Some rootImage,
     originalImageRef = Some rootImage, generatedImage = None, pastIterations = [],
     prompt = ''add a pond'', errorMsg = Some ''quota exceeded'', lastAutoSave = None,
     savedDesigns = [], isSaving = False, showSaveDialog = False\<rparr>"

text \<open>A session after one refinement, showing the result of its second generation.\<close>

abbreviation succeededSession :: App where
  "succeededSession \<equiv>
    \<lparr>appState = SUCCESS, selectedFile = None, imagePreview = Some firstImage,
     originalImageRef = Some rootImage, generatedImage = Some secondImage,
     pastIterations = [firstIteration], prompt = ''add a hedge'', errorMsg = None,
     lastAutoSave = None, savedDesigns = [], isSaving = False, showSaveDialog = False\<rparr>"

text \<open>A stored lineage of two steps, and records without step history.\<close>

abbreviation twoStepDesign :: SavedDesign where
  "twoStepDesign \<equiv>
    \<lparr>design_id = ''d-1'', design_userId = Some ''u-1'', design_timestamp = 300,
     design_originalImage = rootImage, design_generatedImage = secondImage,
     design_prompt = ''add a hedge'',
     design_iterations = Some [firstIteration, secondIteration]\<rparr>"

abbreviation legacyDesign :: SavedDesign where
  "legacyDesign \<equiv>
    \<lparr>design_id = ''d-0'', design_userId = Some ''u-1'', design_timestamp = 50,
     design_originalImage = rootImage, design_generatedImage = firstImage,
     design_prompt = ''add a pond'', design_iterations = None\<rparr>"

abbreviation emptyDesign :: SavedDesign where
  "emptyDesign \<equiv>
    \<lparr>design_id = ''d-9'', design_userId = Some ''u-1'', design_timestamp = 60,
     design_originalImage = ''https://example.org/other-root.png'', design_generatedImage = [],
     design_prompt = [], design_iterations = Some []\<rparr>"

text \<open>Services that answer every call, and a cloud with nothing stored.\<close>

abbreviation reliableServices :: Services where
  "reliableServices \<equiv>
    \<lparr>uploadString_fails = (\<lambda>path. False), getDownloadURL_fails = (\<lambda>path. False),
     downloadURL = (\<lambda>path. ''https://firebasestorage.googleapis.com/v0/b/bucket/o/'' @ path),
     setDoc_fails = False, getDoc_fails = False, deleteObject_error = (\<lambda>path. None),
     deleteDoc_fails = False, getDocs_fails = False\<rparr>"

abbreviation emptyCloud :: Cloud where
  "emptyCloud \<equiv> \<lparr>objects = Map.empty, designs = [], calls = []\<rparr>"

text \<open>
  Two stored records whose result was never uploaded. The encoded data of the second
  contains the text \<open>firebasestorage\<close>.
\<close>

abbreviation inlineResultDesign :: SavedDesign where
  "inlineResultDesign \<equiv>
    \<lparr>design_id = ''d-3'', design_userId = Some ''u-1'', design_timestamp = 70,
     design_originalImage = ''https://firebasestorage.googleapis.com/v0/b/bucket/o/original.png'',
     design_generatedImage = firstImage,
     design_prompt = ''add a pond'', design_iterations = Some []\<rparr>"

abbreviation collidingResultDesign :: SavedDesign where
  "collidingResultDesign \<equiv>
    \<lparr>design_id = ''d-4'', design_userId = Some ''u-1'', design_timestamp = 80,
     design_originalImage = ''https://firebasestorage.googleapis.com/v0/b/bucket/o/original.png'',
     design_generatedImage = ''data:image/png;base64,firebasestorage0'',
     design_prompt = ''add a pond'', design_iterations = Some []\<rparr>"

abbreviation storedCloud :: Cloud where
  "storedCloud \<equiv>
    \<lparr>objects = Map.empty,
     designs = [(''d-0'', legacyDesign), (''d-3'', inlineResultDesign),
                (''d-4'', collidingResultDesign)],
     calls = []\<rparr>"

section \<open>The session state machine\<close>

text \<open>
  C1 (as stated, refuted): the claim says that a start-generation request is rejected
  in every state other than \<open>IDLE\<close>. \<open>handleGenerate\<close> does not read the session
  state: in the failed session, which has a working image and a prompt, the request
  is accepted and the session moves to \<open>LOADING\<close>.
\<close>

theorem handleGenerate_start_accepted_when_failed:
  "appState failedSession \<noteq> IDLE \<and>
   handleGenerate_start failedSession
     = Some (failedSession\<lparr>appState := LOADING, errorMsg := None\<rparr>)"
  by (simp add: handleGenerate_start_def truthy_def trim_def isWhiteSpace_def)

text \<open>
  C1 (amended): a start-generation request is rejected, with the session untouched,
  exactly when there is neither a selected file nor a non-empty working image, or the
  trimmed prompt is empty. The session state plays no part in that decision, so the
  request is accepted in \<open>ERROR\<close> as it is in \<open>IDLE\<close>; an accepted request moves the
  session to \<open>LOADING\<close>, clears the error message and changes nothing else. A second
  request while \<open>LOADING\<close> is excluded by the view: the Generate button is not
  rendered in that state, and it is rendered in \<open>IDLE\<close> and in \<open>ERROR\<close>.
\<close>

theorem handleGenerate_start_gate:
  "(handleGenerate_start s = None \<longleftrightarrow>
      (selectedFile s = None \<and> \<not> truthy (imagePreview s)) \<or> trim (prompt s) = [])
   \<and> (handleGenerate_start (s\<lparr>appState := st\<rparr>) = None \<longleftrightarrow> handleGenerate_start s = None)
   \<and> (handleGenerate_start s = Some s' \<longrightarrow>
        appState s' = LOADING \<and> errorMsg s' = None
        \<and> s'\<lparr>appState := appState s, errorMsg := errorMsg s\<rparr> = s)
   \<and> (handleGenerate_start s = None \<longleftrightarrow> generateButtonDisabled s)
   \<and> (rendersGenerateButton s \<longrightarrow> appState s \<noteq> LOADING)
   \<and> (appState s = IDLE \<or> appState s = ERROR \<longrightarrow> rendersGenerateButton s)"
  by (auto simp add: handleGenerate_start_def generateButtonDisabled_def
      rendersGenerateButton_def)

theorem handleGenerate_start_gate_witness:
  "handleGenerate_start failedSession \<noteq> None
   \<and> handleGenerate_start (failedSession\<lparr>appState := LOADING\<rparr>) \<noteq> None
   \<and> handleGenerate_start (failedSession\<lparr>prompt := ''  ''\<rparr>) = None
   \<and> rendersGenerateButton failedSession
   \<and> \<not> rendersGenerateButton (failedSession\<lparr>appState := LOADING\<rparr>)"
  using handleGenerate_start_gate [of failedSession LOADING]
    handleGenerate_start_gate [of "failedSession\<lparr>prompt := ''  ''\<rparr>"]
    handleGenerate_start_gate [of "failedSession\<lparr>appState := LOADING\<rparr>"]
  by (simp add: truthy_def trim_def isWhiteSpace_def)

text \<open>
  C4: with a result present (a non-empty artifact reference; in particular in state
  \<open>SUCCESS\<close>), refine appends the result, with the current prompt and the identifier
  drawn for it, as the new last entry of \<open>pastIterations\<close>, makes the result the
  working image, clears the result and the prompt, and goes to \<open>IDLE\<close>.
\<close>

theorem handleRefine_commits_result:
  assumes "generatedImage s = Some result" and "result \<noteq> []"
  shows "pastIterations (handleRefine uuid now s) =
           pastIterations s @ [\<lparr>iter_id = uuid, iter_prompt = prompt s,
                                 iter_image = result, iter_timestamp = now\<rparr>]
       \<and> imagePreview (handleRefine uuid now s) = Some result
       \<and> generatedImage (handleRefine uuid now s) = None
       \<and> prompt (handleRefine uuid now s) = []
       \<and> appState (handleRefine uuid now s) = IDLE"
  using assms by (simp add: handleRefine_def setPromptAndSave_def Let_def)

theorem handleRefine_commits_result_witness:
  "appState succeededSession = SUCCESS
   \<and> generatedImage succeededSession = Some secondImage
   \<and> pastIterations (handleRefine ''it-2'' 200 succeededSession)
       = [firstIteration, secondIteration]
   \<and> imagePreview (handleRefine ''it-2'' 200 succeededSession) = Some secondImage
   \<and> generatedImage (handleRefine ''it-2'' 200 succeededSession) = None
   \<and> prompt (handleRefine ''it-2'' 200 succeededSession) = []
   \<and> appState (handleRefine ''it-2'' 200 succeededSession) = IDLE"
  using handleRefine_commits_result [of succeededSession secondImage "''it-2''" 200]
  by simp

section \<open>Reconstructing a session from a stored lineage\<close>

lemma last_step_of_list:
  assumes "its \<noteq> []"
  shows "last its = its ! (length its - 1)"
    and "butlast its = take (length its - 1) its"
    and "0 < length (butlast its) \<longleftrightarrow> 2 \<le> length its"
    and "2 \<le> length its \<Longrightarrow> last (butlast its) = its ! (length its - 2)"
proof -
  show "last its = its ! (length its - 1)" using assms by (rule last_conv_nth)
  show "butlast its = take (length its - 1) its" by (rule butlast_conv_take)
  show "0 < length (butlast its) \<longleftrightarrow> 2 \<le> length its" by auto
  show "last (butlast its) = its ! (length its - 2)" if "2 \<le> length its"
  proof -
    have ne: "butlast its \<noteq> []" using that by (cases its) auto
    have "last (butlast its) = butlast its ! (length (butlast its) - 1)"
      using ne by (rule last_conv_nth)
    also have "\<dots> = its ! (length (butlast its) - 1)"
      using that by (simp add: nth_butlast)
    also have "length (butlast its) - 1 = length its - 2" by simp
    finally show ?thesis .
  qed
qed

text \<open>
  C7: editing a stored lineage with \<open>N \<ge> 1\<close> iterations yields no result and state
  \<open>IDLE\<close>; the working image is the image of iteration \<open>N - 2\<close> when \<open>N \<ge> 2\<close> and the
  original image when \<open>N = 1\<close>; \<open>pastIterations\<close> holds the first \<open>N - 1\<close> iterations
  and the prompt is that of iteration \<open>N - 1\<close>.
\<close>

theorem handleEditDesign_reopens_last_step:
  assumes "design_iterations d = Some its" and "length its = N" and "1 \<le> N"
  shows "generatedImage (handleEditDesign d s) = None
       \<and> appState (handleEditDesign d s) = IDLE
       \<and> imagePreview (handleEditDesign d s) =
            Some (if 2 \<le> N then iter_image (its ! (N - 2)) else design_originalImage d)
       \<and> pastIterations (handleEditDesign d s) = take (N - 1) its
       \<and> prompt (handleEditDesign d s) = iter_prompt (its ! (N - 1))"
proof -
  have ne: "its \<noteq> []" using assms by auto
  note steps = last_step_of_list [OF ne]
  show ?thesis
    using assms steps ne
    by (simp add: handleEditDesign_def setPromptAndSave_def Let_def)
qed

theorem handleEditDesign_reopens_last_step_witness:
  "generatedImage (handleEditDesign twoStepDesign succeededSession) = None
   \<and> appState (handleEditDesign twoStepDesign succeededSession) = IDLE
   \<and> imagePreview (handleEditDesign twoStepDesign succeededSession) = Some firstImage
   \<and> pastIterations (handleEditDesign twoStepDesign succeededSession) = [firstIteration]
   \<and> prompt (handleEditDesign twoStepDesign succeededSession) = ''add a hedge''
   \<and> imagePreview (handleEditDesign (twoStepDesign\<lparr>design_iterations := Some [firstIteration]\<rparr>)
        succeededSession) = Some rootImage
   \<and> pastIterations (handleEditDesign (twoStepDesign\<lparr>design_iterations := Some [firstIteration]\<rparr>)
        succeededSession) = []"
  using handleEditDesign_reopens_last_step
      [of twoStepDesign "[firstIteration, secondIteration]" 2 succeededSession]
    handleEditDesign_reopens_last_step
      [of "twoStepDesign\<lparr>design_iterations := Some [firstIteration]\<rparr>" "[firstIteration]" 1
          succeededSession]
  by simp

text \<open>
  C8: a legacy lineage (no iterations stored, whether the field is missing or empty,
  and \<open>generatedImage = G\<close> set, that is, a non-empty reference) with prompt \<open>P\<close> and
  timestamp \<open>T\<close> is loaded for viewing as \<open>pastIterations = []\<close>, working image the
  original image, result \<open>G\<close>, prompt \<open>P\<close>, in state \<open>SUCCESS\<close>.
\<close>

theorem handleLoadDesign_legacy:
  assumes "design_iterations d = None \<or> design_iterations d = Some []"
    and "design_generatedImage d = G" and "G \<noteq> []"
    and "design_prompt d = P" and "design_timestamp d = T"
  shows "pastIterations (handleLoadDesign d s) = []
       \<and> imagePreview (handleLoadDesign d s) = Some (design_originalImage d)
       \<and> generatedImage (handleLoadDesign d s) = Some G
       \<and> prompt (handleLoadDesign d s) = P
       \<and> appState (handleLoadDesign d s) = SUCCESS"
  using assms
  by (auto simp add: handleLoadDesign_def setPromptAndSave_def Let_def)

theorem handleLoadDesign_legacy_witness:
  "pastIterations (handleLoadDesign legacyDesign succeededSession) = []
   \<and> imagePreview (handleLoadDesign legacyDesign succeededSession) = Some rootImage
   \<and> generatedImage (handleLoadDesign legacyDesign succeededSession) = Some firstImage
   \<and> prompt (handleLoadDesign legacyDesign succeededSession) = ''add a pond''
   \<and> appState (handleLoadDesign legacyDesign succeededSession) = SUCCESS"
  using handleLoadDesign_legacy
      [of legacyDesign firstImage "''add a pond''" 50 succeededSession]
  by simp

text \<open>
  C3: a session with \<open>pastIterations = [A]\<close>, a result \<open>R\<close>, a working image (both
  non-empty references), prompt \<open>P\<close> and a signed-in user is promoted to a lineage,
  and loading that lineage for viewing, into any session, gives back
  \<open>pastIterations = [A]\<close>, result \<open>R\<close> and prompt \<open>P\<close>, with the image of \<open>A\<close> as the
  working image.
\<close>

theorem promote_then_load_roundtrip:
  assumes "pastIterations s = [A]" and "generatedImage s = Some R" and "R \<noteq> []"
    and "imagePreview s = Some W" and "W \<noteq> []" and "prompt s = P"
  shows "\<exists>d. confirmSaveDesign_newDesign (Some user) iterUuid iterNow designUuid designNow s = Some d
           \<and> pastIterations (handleLoadDesign d s0) = [A]
           \<and> generatedImage (handleLoadDesign d s0) = Some R
           \<and> prompt (handleLoadDesign d s0) = P
           \<and> imagePreview (handleLoadDesign d s0) = Some (iter_image A)"
  using assms
  by (simp add: confirmSaveDesign_newDesign_def handleLoadDesign_def setPromptAndSave_def Let_def)

theorem promote_then_load_roundtrip_witness:
  "\<exists>d. confirmSaveDesign_newDesign (Some ''u-1'') ''it-2'' 200 ''d-1'' 300 succeededSession = Some d
     \<and> pastIterations (handleLoadDesign d failedSession) = [firstIteration]
     \<and> generatedImage (handleLoadDesign d failedSession) = Some secondImage
     \<and> prompt (handleLoadDesign d failedSession) = ''add a hedge''
     \<and> imagePreview (handleLoadDesign d failedSession) = Some firstImage"
  using promote_then_load_roundtrip
      [of succeededSession firstIteration secondImage firstImage "''add a hedge''"
          "''u-1''" "''it-2''" 200 "''d-1''" 300 failedSession]
  by simp

section \<open>The working-image invariant\<close>

lemma processFile_invariant:
  "workingImageInvariant s \<Longrightarrow> workingImageInvariant (processFile f s)"
  by (simp add: workingImageInvariant_def processFile_def)

lemma processFile_onload_invariant: "workingImageInvariant (processFile_onload r s)"
  by (simp add: workingImageInvariant_def processFile_onload_def)

lemma handleRefine_invariant:
  "workingImageInvariant s \<Longrightarrow> workingImageInvariant (handleRefine uuid now s)"
  by (simp add: workingImageInvariant_def handleRefine_def setPromptAndSave_def Let_def
      split: option.splits)

lemma handleRetry_invariant:
  "workingImageInvariant s \<Longrightarrow> workingImageInvariant (handleRetry s)"
  by (simp add: workingImageInvariant_def handleRetry_def)

lemma handleReset_invariant: "workingImageInvariant (handleReset s)"
  by (simp add: workingImageInvariant_def handleReset_def setPromptAndSave_def)

lemma handleEditDesign_invariant: "workingImageInvariant (handleEditDesign d s)"
  by (simp add: workingImageInvariant_def handleEditDesign_def setPromptAndSave_def Let_def)

lemma handleLoadDesign_invariant:
  assumes "(design_iterations d \<noteq> None \<and> design_iterations d \<noteq> Some [])
           \<or> design_generatedImage d \<noteq> []"
  shows "workingImageInvariant (handleLoadDesign d s)"
  using assms
  by (auto simp add: workingImageInvariant_def handleLoadDesign_def setPromptAndSave_def Let_def)

text \<open>
  C2 (the code departs from the claim): loading for viewing a record with no
  iterations and an empty \<open>generatedImage\<close> takes the fallback branch of
  \<open>handleLoadDesign\<close>, which sets the working image to the original image of the
  record and leaves \<open>pastIterations\<close> of the previous session in place. The session
  held the invariant before the call and does not hold it afterwards. The fallback
  branch of \<open>handleEditDesign\<close> resets \<open>pastIterations\<close>; every other operation
  preserves the invariant (the lemmas above).
\<close>

theorem handleLoadDesign_fallback_keeps_stale_history:
  "workingImageInvariant succeededSession
   \<and> pastIterations (handleLoadDesign emptyDesign succeededSession) = [firstIteration]
   \<and> imagePreview (handleLoadDesign emptyDesign succeededSession)
       = Some ''https://example.org/other-root.png''
   \<and> originalImageRef (handleLoadDesign emptyDesign succeededSession)
       = Some ''https://example.org/other-root.png''
   \<and> \<not> workingImageInvariant (handleLoadDesign emptyDesign succeededSession)
   \<and> workingImageInvariant (handleEditDesign emptyDesign succeededSession)"
  by (simp add: workingImageInvariant_def handleLoadDesign_def handleEditDesign_def
      setPromptAndSave_def Let_def)

section \<open>Saving a lineage\<close>

lemma issue_simps [simp]:
  "calls (issue c w) = calls w @ [c]"
  "designs (issue c w) = designs w"
  "objects (issue c w) = objects w"
  by (simp_all add: issue_def)

lemma uploadImageToStorage_effect:
  assumes "uploadImageToStorage env p img w = (r, w')"
  shows "designs w' = designs w"
    and "\<exists>new. calls w' = calls w @ new \<and> filter isSetDoc new = []
            \<and> filter isUploadString new = (if isInline img then [UploadString p img] else [])"
    and "(\<exists>e. r = Inl e) \<longleftrightarrow> isInline img \<and> uploadFails env p"
    and "r = Inr u \<Longrightarrow> u = (if isInline img then downloadURL env p else img)"
  using assms
  by (auto simp add: uploadImageToStorage_def isInline_def uploadFails_def Let_def
      split: if_splits)

lemma promiseAll_Inl_iff: "(\<exists>e. promiseAll rs = Inl e) \<longleftrightarrow> (\<exists>r \<in> set rs. \<exists>e. r = Inl e)"
  by (induction rs rule: promiseAll.induct) (auto split: sum.splits)

lemma uploadIterations_effect:
  assumes "uploadIterations env userId designId its w = (rs, w')"
  shows "designs w' = designs w
       \<and> (\<exists>new. calls w' = calls w @ new \<and> filter isSetDoc new = []
            \<and> filter isUploadString new =
                map (\<lambda>iter. UploadString (iterationPath userId designId (iter_id iter)) (iter_image iter))
                  (filter (\<lambda>iter. isInline (iter_image iter)) its))
       \<and> ((\<exists>e. promiseAll rs = Inl e) \<longleftrightarrow>
            (\<exists>iter \<in> set its. isInline (iter_image iter)
                \<and> uploadFails env (iterationPath userId designId (iter_id iter))))"
  using assms
proof (induction its arbitrary: w rs w')
  case Nil
  then show ?case by simp
next
  case (Cons iter rest)
  obtain r w1 where up: "uploadImageToStorage env (iterationPath userId designId (iter_id iter)) (iter_image iter) w = (r, w1)"
    by fastforce
  obtain rs1 w2 where rec: "uploadIterations env userId designId rest w1 = (rs1, w2)"
    by fastforce
  from Cons.prems up rec have rs: "rs = (case r of Inl e \<Rightarrow> Inl e | Inr iterUrl \<Rightarrow> Inr (iter\<lparr>iter_image := iterUrl\<rparr>)) # rs1"
    and w': "w' = w2" by simp_all
  note e1 = uploadImageToStorage_effect[OF up]
  note e2 = Cons.IH[OF rec]
  from e1(2) obtain new1 where n1: "calls w1 = calls w @ new1" "filter isSetDoc new1 = []"
    "filter isUploadString new1 = (if isInline (iter_image iter) then [UploadString (iterationPath userId designId (iter_id iter)) (iter_image iter)] else [])"
    by blast
  from e2 obtain new2 where n2: "calls w2 = calls w1 @ new2" "filter isSetDoc new2 = []"
    "filter isUploadString new2 =
                map (\<lambda>iter. UploadString (iterationPath userId designId (iter_id iter)) (iter_image iter))
                  (filter (\<lambda>iter. isInline (iter_image iter)) rest)"
    by blast
  have A: "designs w' = designs w" using e1(1) e2 w' by simp
  have B: "calls w' = calls w @ (new1 @ new2) \<and> filter isSetDoc (new1 @ new2) = []
     \<and> filter isUploadString (new1 @ new2) =
                map (\<lambda>iter. UploadString (iterationPath userId designId (iter_id iter)) (iter_image iter))
                  (filter (\<lambda>iter. isInline (iter_image iter)) (iter # rest))"
    using n1 n2 w' by simp
  have C: "(\<exists>e. promiseAll rs = Inl e) \<longleftrightarrow>
            (\<exists>it \<in> set (iter # rest). isInline (iter_image it)
                \<and> uploadFails env (iterationPath userId designId (iter_id it)))"
  proof (cases r)
    case (Inl e)
    then show ?thesis using e1(3) rs by auto
  next
    case (Inr u)
    then have "\<not> (isInline (iter_image iter) \<and> uploadFails env (iterationPath userId designId (iter_id iter)))"
      using e1(3) by auto
    moreover have "(\<exists>e. promiseAll rs = Inl e) \<longleftrightarrow> (\<exists>e. promiseAll rs1 = Inl e)"
      using Inr rs by (auto split: sum.splits)
    ultimately show ?thesis using e2 by auto
  qed
  from A B C show ?case by blast
qed


lemma setDoc_effect:
  assumes "setDoc env docId r w = (res, w')"
  shows "calls w' = calls w @ [SetDoc docId r]"
    and "setDoc_fails env \<Longrightarrow> designs w' = designs w \<and> (\<exists>e. res = Inl e)"
    and "\<not> setDoc_fails env \<Longrightarrow> map_of (designs w') docId = Some r \<and> res = Inr ()"
proof -
  have m1: "map_of (map (\<lambda>(k, v). if k = docId then (k, r) else (k, v)) xs) docId = Some r"
    if "docId \<in> fst ` set xs" for xs :: "(string \<times> SavedDesign) list"
    using that by (induction xs) auto
  have m2: "map_of (xs @ [(docId, r)]) docId = Some r"
    if "docId \<notin> fst ` set xs" for xs :: "(string \<times> SavedDesign) list"
    using that by (induction xs) auto
  show "calls w' = calls w @ [SetDoc docId r]"
    using assms by (auto simp add: setDoc_def Let_def split: if_splits)
  show "designs w' = designs w \<and> (\<exists>e. res = Inl e)" if "setDoc_fails env"
    using assms that by (auto simp add: setDoc_def Let_def split: if_splits)
  show "map_of (designs w') docId = Some r \<and> res = Inr ()" if ok: "\<not> setDoc_fails env"
  proof (cases "docId \<in> fst ` set (designs w)")
    case True
    then have "designs w' = map (\<lambda>(k, v). if k = docId then (k, r) else (k, v)) (designs w)"
      and "res = Inr ()"
      using assms ok by (auto simp add: setDoc_def Let_def)
    then show ?thesis using m1[OF True] by simp
  next
    case False
    then have "designs w' = designs w @ [(docId, r)]" and "res = Inr ()"
      using assms ok by (auto simp add: setDoc_def Let_def)
    then show ?thesis using m2[OF False] by simp
  qed
qed

text \<open>Every save: the calls it issues, the metadata write last if at all.\<close>

lemma saveDesign_calls:
  assumes "saveDesign env design userId w = (ok, w')"
  shows "\<exists>new. calls w' = calls w @ new
          \<and> (if \<exists>(path, img) \<in> set (artifacts userId design). isInline img \<and> uploadFails env path
              then filter isSetDoc new = [] \<and> \<not> ok \<and> designs w' = designs w
              else \<exists>pre r. new = pre @ [SetDoc (design_id design) r] \<and> filter isSetDoc pre = []
                     \<and> (ok \<longleftrightarrow> \<not> setDoc_fails env))"
proof -
  let ?F = "\<exists>(path, img) \<in> set (artifacts userId design). isInline img \<and> uploadFails env path"
  obtain r1 w1 where u1: "uploadImageToStorage env (originalPath userId (design_id design))
            (design_originalImage design) w = (r1, w1)" by fastforce
  obtain r2 w2 where u2: "uploadImageToStorage env (generatedPath userId (design_id design))
            (design_generatedImage design) w1 = (r2, w2)" by fastforce
  obtain rs w3 where u3: "uploadIterations env userId (design_id design)
                      (case design_iterations design of None \<Rightarrow> [] | Some its \<Rightarrow> its) w2 = (rs, w3)"
    by fastforce
  from uploadImageToStorage_effect(1,2)[OF u1] obtain n1 where
    n1: "designs w1 = designs w" "calls w1 = calls w @ n1" "filter isSetDoc n1 = []" by blast
  from uploadImageToStorage_effect(1,2)[OF u2] obtain n2 where
    n2: "designs w2 = designs w1" "calls w2 = calls w1 @ n2" "filter isSetDoc n2 = []" by blast
  from uploadIterations_effect[OF u3] obtain n3 where
    n3: "designs w3 = designs w2" "calls w3 = calls w2 @ n3" "filter isSetDoc n3 = []" by blast
  have F: "?F \<longleftrightarrow> (\<exists>e. r1 = Inl e) \<or> (\<exists>e. r2 = Inl e) \<or> (\<exists>e. promiseAll rs = Inl e)"
    using uploadImageToStorage_effect(3)[OF u1] uploadImageToStorage_effect(3)[OF u2]
      uploadIterations_effect[OF u3]
    by (auto simp add: artifacts_def)
  show ?thesis
  proof (cases r1)
    case (Inl e)
    then have "ok = False" "w' = w1" using assms u1 by (simp_all add: saveDesign_def)
    then show ?thesis using n1 F Inl by auto
  next
    case a: (Inr originalUrl)
    show ?thesis
    proof (cases r2)
      case (Inl e)
      then have "ok = False" "w' = w2" using assms u1 u2 a by (simp_all add: saveDesign_def)
      then show ?thesis using n1 n2 F Inl by auto
    next
      case b: (Inr generatedUrl)
      show ?thesis
      proof (cases "promiseAll rs")
        case (Inl e)
        then have "ok = False" "w' = w3" using assms u1 u2 u3 a b by (simp_all add: saveDesign_def)
        then show ?thesis using n1 n2 n3 F Inl by auto
      next
        case c: (Inr processed)
        let ?rec = "design\<lparr>design_userId := Some userId, design_originalImage := originalUrl,
                    design_generatedImage := generatedUrl, design_iterations := Some processed\<rparr>"
        obtain res w4 where sd: "setDoc env (design_id design) ?rec w3 = (res, w4)"
          by fastforce
        have w4: "w' = w4" and okres: "ok \<longleftrightarrow> (\<exists>u. res = Inr u)" using assms u1 u2 u3 a b c sd
          by (auto simp add: saveDesign_def Let_def split: sum.splits)
        have "calls w' = calls w @ ((n1 @ n2 @ n3) @ [SetDoc (design_id design) ?rec])"
          using setDoc_effect(1)[OF sd] n1 n2 n3 w4 by simp
        moreover have "filter isSetDoc (n1 @ n2 @ n3) = []" using n1 n2 n3 by simp
        moreover have "ok \<longleftrightarrow> \<not> setDoc_fails env"
          using setDoc_effect(2,3)[OF sd] okres by auto
        moreover have "\<not> ?F" using F a b c by simp
        ultimately show ?thesis by (simp only: if_False) blast
      qed
    qed
  qed
qed

lemma confirmSaveDesign_reports_failure:
  assumes "confirmSaveDesign_newDesign (Some userId) iterUuid iterNow designUuid designNow s = Some d"
    and "saveDesign env d userId w = (False, w1)"
  shows "confirmSaveDesign env (Some userId) iterUuid iterNow designUuid designNow (s, w) =
    (s\<lparr>isSaving := False, showSaveDialog := False,
       errorMsg := Some ''Failed to save. Storage limit reached.''\<rparr>, w1)"
  using assms by (simp add: confirmSaveDesign_def)

text \<open>
  C5: when at least one artifact of the lineage needs an upload that fails (the
  \<open>uploadString\<close> call or the \<open>getDownloadURL\<close> call for its path throws),
  \<open>saveDesign\<close> returns \<open>false\<close>, issues no metadata write and leaves the metadata
  store as it was. In every save the metadata write, if there is one, is the single
  such call and the last call issued.
\<close>

theorem saveDesign_all_or_nothing:
  assumes "saveDesign env design userId w = (ok, w')"
  shows "\<exists>new. calls w' = calls w @ new
          \<and> ((\<exists>(path, img) \<in> set (artifacts userId design). isInline img \<and> uploadFails env path)
                \<longrightarrow> \<not> ok \<and> designs w' = designs w \<and> filter isSetDoc new = [])
          \<and> (filter isSetDoc new = []
              \<or> (\<exists>pre r. new = pre @ [SetDoc (design_id design) r] \<and> filter isSetDoc pre = []))"
proof -
  from saveDesign_calls [OF assms] obtain new where
    c: "calls w' = calls w @ new"
    and k: "if \<exists>(path, img) \<in> set (artifacts userId design). isInline img \<and> uploadFails env path
            then filter isSetDoc new = [] \<and> \<not> ok \<and> designs w' = designs w
            else \<exists>pre r. new = pre @ [SetDoc (design_id design) r] \<and> filter isSetDoc pre = []
                   \<and> (ok \<longleftrightarrow> \<not> setDoc_fails env)"
    by blast
  show ?thesis
  proof (cases "\<exists>(path, img) \<in> set (artifacts userId design). isInline img \<and> uploadFails env path")
    case True
    with k have "filter isSetDoc new = [] \<and> \<not> ok \<and> designs w' = designs w" by simp
    with c show ?thesis by blast
  next
    case False
    with k have "\<exists>pre r. new = pre @ [SetDoc (design_id design) r] \<and> filter isSetDoc pre = []"
      by (simp only: if_False) blast
    with c False show ?thesis by blast
  qed
qed

theorem saveDesign_all_or_nothing_witness:
  "\<not> fst (saveDesign
        (reliableServices\<lparr>uploadString_fails := (\<lambda>path. path = iterationPath ''u-1'' ''d-1'' ''it-2'')\<rparr>)
        twoStepDesign ''u-1'' emptyCloud)
   \<and> designs (snd (saveDesign
        (reliableServices\<lparr>uploadString_fails := (\<lambda>path. path = iterationPath ''u-1'' ''d-1'' ''it-2'')\<rparr>)
        twoStepDesign ''u-1'' emptyCloud)) = []
   \<and> filter isSetDoc (calls (snd (saveDesign
        (reliableServices\<lparr>uploadString_fails := (\<lambda>path. path = iterationPath ''u-1'' ''d-1'' ''it-2'')\<rparr>)
        twoStepDesign ''u-1'' emptyCloud))) = []"
proof -
  let ?env = "reliableServices\<lparr>uploadString_fails := (\<lambda>path. path = iterationPath ''u-1'' ''d-1'' ''it-2'')\<rparr>"
  let ?run = "saveDesign ?env twoStepDesign ''u-1'' emptyCloud"
  have run: "?run = (fst ?run, snd ?run)" by simp
  have bad: "\<exists>(path, img) \<in> set (artifacts ''u-1'' twoStepDesign). isInline img \<and> uploadFails ?env path"
    by (simp add: artifacts_def isInline_def uploadFails_def)
  from saveDesign_all_or_nothing [OF run] bad show ?thesis by auto
qed

lemma uploadImageToStorage_inline_ok:
  assumes "isInline img" and "\<not> uploadFails env p"
  shows "uploadImageToStorage env p img w =
    (Inr (downloadURL env p),
     w\<lparr>objects := (objects w)(p \<mapsto> img), calls := calls w @ [UploadString p img, GetDownloadURL p]\<rparr>)"
  using assms
  by (simp add: uploadImageToStorage_def isInline_def uploadFails_def Let_def issue_def)

text \<open>
  C6: saving a lineage with two iterations whose four artifact references are all
  inline, with services that answer every call and a store that returns URLs, succeeds
  and issues exactly four upload calls (original, generated, one per iteration) and
  one metadata write; the record written, which is the record then stored under the
  id of the lineage, has a locator in every artifact field.
\<close>

theorem saveDesign_two_iterations_inline:
  assumes its: "design_iterations design = Some [it1, it2]"
    and inl: "isInline (design_originalImage design)" "isInline (design_generatedImage design)"
      "isInline (iter_image it1)" "isInline (iter_image it2)"
    and nofail: "\<forall>p. \<not> uploadFails env p" "\<not> setDoc_fails env"
    and urls: "\<forall>p. isLocator (downloadURL env p)"
    and run: "saveDesign env design userId w = (ok, w')"
  shows "ok \<and> (\<exists>new r its'. calls w' = calls w @ new
        \<and> filter isUploadString new =
            [UploadString (originalPath userId (design_id design)) (design_originalImage design),
             UploadString (generatedPath userId (design_id design)) (design_generatedImage design),
             UploadString (iterationPath userId (design_id design) (iter_id it1)) (iter_image it1),
             UploadString (iterationPath userId (design_id design) (iter_id it2)) (iter_image it2)]
        \<and> length (filter isUploadString new) = 4
        \<and> filter isSetDoc new = [SetDoc (design_id design) r]
        \<and> map_of (designs w') (design_id design) = Some r
        \<and> isLocator (design_originalImage r) \<and> isLocator (design_generatedImage r)
        \<and> design_iterations r = Some its' \<and> length its' = 2
        \<and> (\<forall>it \<in> set its'. isLocator (iter_image it)))"
proof -
  let ?id = "design_id design"
  let ?r = "design\<lparr>design_userId := Some userId,
                design_originalImage := downloadURL env (originalPath userId ?id),
                design_generatedImage := downloadURL env (generatedPath userId ?id),
                design_iterations := Some
                  [it1\<lparr>iter_image := downloadURL env (iterationPath userId ?id (iter_id it1))\<rparr>,
                   it2\<lparr>iter_image := downloadURL env (iterationPath userId ?id (iter_id it2))\<rparr>]\<rparr>"
  let ?new = "[UploadString (originalPath userId ?id) (design_originalImage design),
      GetDownloadURL (originalPath userId ?id),
      UploadString (generatedPath userId ?id) (design_generatedImage design),
      GetDownloadURL (generatedPath userId ?id),
      UploadString (iterationPath userId ?id (iter_id it1)) (iter_image it1),
      GetDownloadURL (iterationPath userId ?id (iter_id it1)),
      UploadString (iterationPath userId ?id (iter_id it2)) (iter_image it2),
      GetDownloadURL (iterationPath userId ?id (iter_id it2)),
      SetDoc ?id ?r]"
  have up: "\<And>p img v. isInline img \<Longrightarrow> uploadImageToStorage env p img v =
    (Inr (downloadURL env p),
     v\<lparr>objects := (objects v)(p \<mapsto> img), calls := calls v @ [UploadString p img, GetDownloadURL p]\<rparr>)"
    using nofail(1) by (simp add: uploadImageToStorage_inline_ok)
  obtain res w4 where sd: "setDoc env ?id ?r
      (w\<lparr>objects := (objects w)(originalPath userId ?id \<mapsto> design_originalImage design,
                               generatedPath userId ?id \<mapsto> design_generatedImage design,
                               iterationPath userId ?id (iter_id it1) \<mapsto> iter_image it1,
                               iterationPath userId ?id (iter_id it2) \<mapsto> iter_image it2),
         calls := calls w @ butlast ?new\<rparr>) = (res, w4)"
    by fastforce
  have "saveDesign env design userId w = (case (res, w4) of (Inl e, w4) \<Rightarrow> (False, w4) | (Inr u, w4) \<Rightarrow> (True, w4))"
    using its inl sd by (simp add: saveDesign_def up Let_def)
  moreover note e = setDoc_effect[OF sd]
  ultimately have ok: "ok" and w': "w' = w4"
    using run e(3) nofail(2) by auto
  have c: "calls w' = calls w @ ?new" using e(1) w' by simp
  have m: "map_of (designs w') ?id = Some ?r" using e(3) nofail(2) w' by simp
  have l: "isLocator (design_originalImage ?r)" "isLocator (design_generatedImage ?r)"
    "\<forall>it \<in> set [it1\<lparr>iter_image := downloadURL env (iterationPath userId ?id (iter_id it1))\<rparr>,
                   it2\<lparr>iter_image := downloadURL env (iterationPath userId ?id (iter_id it2))\<rparr>].
        isLocator (iter_image it)"
    using urls by simp_all
  show ?thesis
    apply (rule conjI[OF ok])
    apply (rule exI[of _ ?new])
    apply (rule exI[of _ ?r])
    apply (rule exI[of _ "[it1\<lparr>iter_image := downloadURL env (iterationPath userId ?id (iter_id it1))\<rparr>,
                   it2\<lparr>iter_image := downloadURL env (iterationPath userId ?id (iter_id it2))\<rparr>]"])
    using c m l by simp
qed


theorem saveDesign_two_iterations_inline_witness:
  "fst (saveDesign reliableServices twoStepDesign ''u-1'' emptyCloud)
   \<and> length (filter isUploadString
       (calls (snd (saveDesign reliableServices twoStepDesign ''u-1'' emptyCloud)))) = 4
   \<and> length (filter isSetDoc
       (calls (snd (saveDesign reliableServices twoStepDesign ''u-1'' emptyCloud)))) = 1"
proof -
  let ?run = "saveDesign reliableServices twoStepDesign ''u-1'' emptyCloud"
  have run: "?run = (fst ?run, snd ?run)" by simp
  have inl: "isInline (design_originalImage twoStepDesign)"
    "isInline (design_generatedImage twoStepDesign)"
    "isInline (iter_image firstIteration)" "isInline (iter_image secondIteration)"
    by (simp_all add: isInline_def)
  have ok: "\<forall>p. \<not> uploadFails reliableServices p" "\<not> setDoc_fails reliableServices"
    "\<forall>p. isLocator (downloadURL reliableServices p)"
    by (simp_all add: uploadFails_def isLocator_def)
  have its: "design_iterations twoStepDesign = Some [firstIteration, secondIteration]" by simp
  from saveDesign_two_iterations_inline [OF its inl ok run] show ?thesis by auto
qed

section \<open>Deleting a lineage\<close>

lemma safeDelete_effect [simp]:
  "calls (safeDelete env path w) = calls w @ [DeleteObject path]"
  "designs (safeDelete env path w) = designs w"
  by (simp_all add: safeDelete_def Let_def split: option.splits)

lemma foldl_safeDelete_effect [simp]:
  "calls (foldl (\<lambda>acc path. safeDelete env path acc) w paths) = calls w @ map DeleteObject paths"
  "designs (foldl (\<lambda>acc path. safeDelete env path acc) w paths) = designs w"
  by (induction paths arbitrary: w) simp_all

lemma getSavedDesigns_effect:
  assumes "getSavedDesigns env uid w = (res, w')"
  shows "designs w' = designs w"
    and "\<exists>new. calls w' = calls w @ new \<and> set new \<subseteq> range GetDocs"
    and "getDocs_fails env \<Longrightarrow> res = []"
  using assms
  by (auto simp add: getSavedDesigns_def Let_def split: option.splits if_splits)

lemma deleteDesign_effect:
  assumes "deleteDesign env docId userId w = (res, w')"
  shows "getDoc_fails env \<Longrightarrow>
           res = [] \<and> designs w' = designs w \<and> calls w' = calls w @ [GetDoc docId]"
    and "\<not> getDoc_fails env \<Longrightarrow> deleteDoc_fails env \<Longrightarrow>
           res = [] \<and> designs w' = designs w
           \<and> calls w' = calls w @ GetDoc docId # map DeleteObject (cleanupPaths userId docId w) @ [DeleteDoc docId]"
    and "\<not> getDoc_fails env \<Longrightarrow> \<not> deleteDoc_fails env \<Longrightarrow>
           designs w' = filter (\<lambda>(k, v). k \<noteq> docId) (designs w)
           \<and> (getDocs_fails env \<longrightarrow> res = [])
           \<and> (\<exists>new. calls w' = calls w @ GetDoc docId # map DeleteObject (cleanupPaths userId docId w)
                        @ DeleteDoc docId # new \<and> set new \<subseteq> range GetDocs)"
proof -
  show "res = [] \<and> designs w' = designs w \<and> calls w' = calls w @ [GetDoc docId]" if "getDoc_fails env"
    using assms that by (auto simp add: deleteDesign_def Let_def)
  show "res = [] \<and> designs w' = designs w
           \<and> calls w' = calls w @ GetDoc docId # map DeleteObject (cleanupPaths userId docId w) @ [DeleteDoc docId]"
    if "\<not> getDoc_fails env" "deleteDoc_fails env"
    using assms that by (auto simp add: deleteDesign_def cleanupPaths_def Let_def split: option.splits)
  show "designs w' = filter (\<lambda>(k, v). k \<noteq> docId) (designs w)
           \<and> (getDocs_fails env \<longrightarrow> res = [])
           \<and> (\<exists>new. calls w' = calls w @ GetDoc docId # map DeleteObject (cleanupPaths userId docId w)
                        @ DeleteDoc docId # new \<and> set new \<subseteq> range GetDocs)"
    if f: "\<not> getDoc_fails env" "\<not> deleteDoc_fails env"
  proof -
    let ?w3 = "issue (DeleteDoc docId)
        (case map_of (designs (issue (GetDoc docId) w)) docId of
           Some design \<Rightarrow> foldl (\<lambda>acc path. safeDelete env path acc) (issue (GetDoc docId) w)
                                    (deletePaths userId docId design)
         | None \<Rightarrow> issue (GetDoc docId) w)"
    have g: "getSavedDesigns env (Some userId) (?w3\<lparr>designs := filter (\<lambda>(k, v). k \<noteq> docId) (designs ?w3)\<rparr>) = (res, w')"
      using assms f by (simp add: deleteDesign_def Let_def)
    have c3: "calls ?w3 = calls w @ GetDoc docId # map DeleteObject (cleanupPaths userId docId w) @ [DeleteDoc docId]"
      and d3: "designs ?w3 = designs w"
      by (simp_all add: cleanupPaths_def split: option.splits)
    from getSavedDesigns_effect[OF g] c3 d3 show ?thesis by auto
  qed
qed

lemma map_of_filter_out: "map_of (filter (\<lambda>(k, v). k \<noteq> docId) xs) docId = None"
  by (induction xs) auto

lemma generatedPath_distinct:
  "originalPath userId docId \<noteq> generatedPath userId docId"
  "iterationPath userId docId iterId \<noteq> generatedPath userId docId"
  "generatedPath userId docId \<noteq> originalPath userId docId"
  "generatedPath userId docId \<noteq> iterationPath userId docId iterId"
  by (simp_all add: originalPath_def generatedPath_def iterationPath_def)

lemma generatedPath_not_cleaned:
  assumes "\<not> includes_str (design_generatedImage design) ''firebasestorage''"
  shows "generatedPath userId docId \<notin> set (deletePaths userId docId design)"
  using assms
  by (auto simp add: deletePaths_def generatedPath_distinct split: option.splits)

text \<open>
  C9 (as stated, refuted): the record \<open>d-4\<close> holds a result that was never uploaded,
  an inline data URL. Its encoded data contains the text \<open>firebasestorage\<close>, which is
  what \<open>deleteDesign\<close> looks for, so a storage delete call for the generated image is
  issued.
\<close>

theorem deleteDesign_inline_result_delete_call:
  "isInline (design_generatedImage collidingResultDesign)
   \<and> map_of (designs storedCloud) ''d-4'' = Some collidingResultDesign
   \<and> DeleteObject (generatedPath ''u-1'' ''d-4'')
       \<in> set (calls (snd (deleteDesign reliableServices ''d-4'' ''u-1'' storedCloud)))"
  by (simp add: isInline_def deleteDesign_def deletePaths_def getSavedDesigns_def Let_def
      issue_def safeDelete_def generatedPath_def originalPath_def)

text \<open>
  C9 (amended): when the record is fetched and its \<open>generatedImage\<close> does not contain
  the text \<open>firebasestorage\<close> (as an inline reference does not, unless its encoded
  data happens to contain it), \<open>deleteDesign\<close> issues no storage delete call for the
  generated image and still issues the delete of the metadata record, which is gone
  from the store unless that delete throws.
\<close>

theorem deleteDesign_skips_generated:
  assumes "\<not> getDoc_fails env" and "map_of (designs w) docId = Some design"
    and "\<not> includes_str (design_generatedImage design) ''firebasestorage''"
    and "deleteDesign env docId userId w = (res, w')"
  shows "\<exists>new. calls w' = calls w @ new
          \<and> DeleteObject (generatedPath userId docId) \<notin> set new
          \<and> DeleteDoc docId \<in> set new
          \<and> (\<not> deleteDoc_fails env \<longrightarrow> map_of (designs w') docId = None)"
proof -
  have cp: "cleanupPaths userId docId w = deletePaths userId docId design"
    using assms(2) by (simp add: cleanupPaths_def)
  have ng: "DeleteObject (generatedPath userId docId) \<notin> set (map DeleteObject (deletePaths userId docId design))"
    using generatedPath_not_cleaned[OF assms(3)] by auto
  show ?thesis
  proof (cases "deleteDoc_fails env")
    case True
    from deleteDesign_effect(2)[OF assms(4) assms(1) True] cp ng True show ?thesis by auto
  next
    case False
    from deleteDesign_effect(3)[OF assms(4) assms(1) False] obtain new where
      n: "designs w' = filter (\<lambda>(k, v). k \<noteq> docId) (designs w)"
       "calls w' = calls w @ GetDoc docId # map DeleteObject (cleanupPaths userId docId w)
                        @ DeleteDoc docId # new" "set new \<subseteq> range GetDocs" by blast
    have "DeleteObject (generatedPath userId docId) \<notin> set new" using n(3) by auto
    then show ?thesis using n cp ng False map_of_filter_out by auto
  qed
qed

theorem deleteDesign_skips_generated_witness:
  "isInline (design_generatedImage inlineResultDesign)
   \<and> DeleteObject (generatedPath ''u-1'' ''d-3'')
       \<notin> set (calls (snd (deleteDesign reliableServices ''d-3'' ''u-1'' storedCloud)))
   \<and> DeleteDoc ''d-3'' \<in> set (calls (snd (deleteDesign reliableServices ''d-3'' ''u-1'' storedCloud)))
   \<and> map_of (designs (snd (deleteDesign reliableServices ''d-3'' ''u-1'' storedCloud))) ''d-3'' = None"
proof -
  let ?run = "deleteDesign reliableServices ''d-3'' ''u-1'' storedCloud"
  have run: "?run = (fst ?run, snd ?run)" by simp
  have a: "\<not> getDoc_fails reliableServices" by simp
  have b: "map_of (designs storedCloud) ''d-3'' = Some inlineResultDesign" by simp
  have c: "\<not> includes_str (design_generatedImage inlineResultDesign) ''firebasestorage''"
    by simp
  have d: "isInline (design_generatedImage inlineResultDesign)" by (simp add: isInline_def)
  from deleteDesign_skips_generated [OF a b c run] d show ?thesis by auto
qed

text \<open>
  C10: when fetching the record, deleting the record or fetching the list of the
  owner again throws, \<open>deleteDesign\<close> returns the empty list (the first two are
  caught by its own handler, the third by the handler of \<open>getSavedDesigns\<close>, whose
  empty result it returns); when the first fetch throws, no call follows it and the
  metadata store is unchanged, so the record is not deleted.
\<close>

theorem deleteDesign_returns_empty_on_throw:
  assumes "deleteDesign env docId userId w = (res, w')"
  shows "(getDoc_fails env \<or> deleteDoc_fails env \<or> getDocs_fails env \<longrightarrow> res = [])
       \<and> (getDoc_fails env \<longrightarrow> designs w' = designs w \<and> calls w' = calls w @ [GetDoc docId])"
  using deleteDesign_effect[OF assms] by blast

theorem deleteDesign_returns_empty_on_throw_witness:
  "fst (deleteDesign (reliableServices\<lparr>getDoc_fails := True\<rparr>) ''d-3'' ''u-1'' storedCloud) = []
   \<and> designs (snd (deleteDesign (reliableServices\<lparr>getDoc_fails := True\<rparr>) ''d-3'' ''u-1'' storedCloud))
       = designs storedCloud
   \<and> calls (snd (deleteDesign (reliableServices\<lparr>getDoc_fails := True\<rparr>) ''d-3'' ''u-1'' storedCloud))
       = [GetDoc ''d-3'']
   \<and> fst (deleteDesign (reliableServices\<lparr>deleteDoc_fails := True\<rparr>) ''d-3'' ''u-1'' storedCloud) = []
   \<and> fst (deleteDesign (reliableServices\<lparr>getDocs_fails := True\<rparr>) ''d-3'' ''u-1'' storedCloud) = []
   \<and> fst (deleteDesign reliableServices ''d-3'' ''u-1'' storedCloud)
       = [collidingResultDesign, legacyDesign]"
proof -
  let ?run1 = "deleteDesign (reliableServices\<lparr>getDoc_fails := True\<rparr>) ''d-3'' ''u-1'' storedCloud"
  let ?run2 = "deleteDesign (reliableServices\<lparr>deleteDoc_fails := True\<rparr>) ''d-3'' ''u-1'' storedCloud"
  let ?run3 = "deleteDesign (reliableServices\<lparr>getDocs_fails := True\<rparr>) ''d-3'' ''u-1'' storedCloud"
  have r1: "?run1 = (fst ?run1, snd ?run1)" and r2: "?run2 = (fst ?run2, snd ?run2)"
    and r3: "?run3 = (fst ?run3, snd ?run3)" by simp_all
  have survivors: "fst (deleteDesign reliableServices ''d-3'' ''u-1'' storedCloud)
       = [collidingResultDesign, legacyDesign]"
    by (simp add: deleteDesign_def deletePaths_def getSavedDesigns_def Let_def
        issue_def safeDelete_def)
  from deleteDesign_returns_empty_on_throw [OF r1] deleteDesign_returns_empty_on_throw [OF r2]
    deleteDesign_returns_empty_on_throw [OF r3] survivors
  show ?thesis by simp
qed

end
